theory Spec2Isabelle
  imports Complex_Main "HOL-Library.Char_ord" "HOL-Library.List_Lexorder"
begin

section \<open>The TrxFile container of trx\_file\_zarr.py\<close>

text \<open>
  A \<open>TrxFile\<close> wraps a zarr group. The model keeps what the operations read and write:
  the four root attributes, the kind of the bound store, the two top-level arrays
  \<open>positions\<close> and \<open>offsets\<close>, and the four child namespaces. A zarr array is the list of
  its rows (the row type is a parameter: a point for \<open>positions\<close>, a value row for the
  metadata arrays); a zarr namespace is the list of its (key, array) entries in the order
  \<open>array_keys()\<close> enumerates them. The attributes \<open>NB_POINTS\<close> and \<open>NB_STREAMLINES\<close>
  are stored apart from the arrays, so the model keeps them apart as well.

  Every exception the code raises is a value of \<open>error\<close>. The code raises \<open>ValueError\<close>
  with five different messages in \<open>append\<close> and one in \<open>select\<close>; the constructors carry
  the names the design gives these failures. \<open>KeyError\<close>, \<open>IndexError\<close> and
  \<open>BroadcastError\<close> are the exceptions of the libraries underneath (a missing zarr key,
  a numpy index out of bounds, a numpy assignment whose shapes do not fit).
\<close>

datatype error =
    SchemaMismatch          \<comment> \<open>'Mismatched space attributes between TrxFile.'\<close>
  | ImmutableBackendError   \<comment> \<open>'Cannot append to a Zip. ...'\<close>
  | ConflictingPolicy       \<comment> \<open>'Cannot delete and keep data_per_group at the same time.'\<close>
  | KeySetMismatch          \<comment> \<open>'data_per_point keys must fit to append.' (and per streamline)\<close>
  | AmbiguousGroupPolicy    \<comment> \<open>'Choose a strategy for data_per_group: ...'\<close>
  | IndexOutOfRange         \<comment> \<open>'Invalid indices.'\<close>
  | KeyError
  | IndexError
  | BroadcastError

datatype store = TempStore | DirectoryStore | ZipStore | MemoryStore

record ('p, 'v) trx =
  voxel_to_rasmm :: "real list"
  dimensions :: "nat list"
  nb_points :: nat
  nb_streamlines :: nat
  storage :: store
  zpos :: "'p list"
  zoff :: "nat list"
  zdpp :: "(string \<times> 'v list) list"
  zdps :: "(string \<times> 'v list) list"
  zgrp :: "(string \<times> nat list) list"
  zdpg :: "(string \<times> (string \<times> 'v list) list) list"

subsection \<open>Module-level helpers\<close>

text \<open>
  \<open>np.argsort\<close> returns a permutation that sorts its argument; the model keeps equal
  keys in input order. \<open>np.searchsorted\<close> (left side) on a sorted array is the number of
  elements smaller than the probe. \<open>np.take(..., mode="clip")\<close> clips the index to the last
  position and fails on an empty array.
\<close>

definition argsort :: "nat list \<Rightarrow> nat list" where
  "argsort xs = sort_key (\<lambda>j. xs ! j) [0..<length xs]"

definition searchsorted :: "nat list \<Rightarrow> nat \<Rightarrow> nat" where
  "searchsorted a v = length (takeWhile (\<lambda>x. x < v) a)"

definition take_clip :: "nat list \<Rightarrow> nat \<Rightarrow> nat" where
  "take_clip a i = a ! min i (length a - 1)"

definition intersect_groups :: "nat list \<Rightarrow> nat list \<Rightarrow> error + nat list" where
  "intersect_groups grp indices =
     (if indices = [] \<and> grp \<noteq> [] then Inl IndexError
      else
        let index = argsort indices;
            sorted_x = map (\<lambda>j. indices ! j) index;
            sorted_index = map (searchsorted sorted_x) grp;
            yindex = map (take_clip index) sorted_index;
            mask = map (\<lambda>(y, g). indices ! y \<noteq> g) (zip yindex grp)
        in Inr (map fst (filter (\<lambda>(y, m). \<not> m) (zip yindex mask))))"

text \<open>
  \<open>compute_lengths\<close>: the offsets are unsigned 64-bit, the result is cast to unsigned
  32-bit, so every difference is taken modulo \<open>2 ^ 32\<close>.
\<close>

definition to_uint32 :: "int \<Rightarrow> nat" where
  "to_uint32 i = nat (i mod 2 ^ 32)"

fun ediff1d :: "nat list \<Rightarrow> int list" where
  "ediff1d (a # b # xs) = (int b - int a) # ediff1d (b # xs)"
| "ediff1d xs = []"

definition compute_lengths :: "nat list \<Rightarrow> nat \<Rightarrow> nat list" where
  "compute_lengths offsets nb_pts =
     map to_uint32
       (if length offsets > 1 then ediff1d offsets @ [int nb_pts - int (last offsets)]
        else if length offsets = 1 then [int nb_pts]
        else [0])"

definition check_same_keys :: "string list \<Rightarrow> string list \<Rightarrow> bool" where
  "check_same_keys key_1 key_2 = (sort key_1 = sort key_2)"

text \<open>
  \<open>np.allclose\<close> with its default tolerances and \<open>np.array_equal\<close>, on the flattened
  affine and on the grid dimensions.
\<close>

definition allclose :: "real list \<Rightarrow> real list \<Rightarrow> bool" where
  "allclose a b = list_all2 (\<lambda>x y. \<bar>x - y\<bar> \<le> 1 / 10 ^ 8 + 1 / 10 ^ 5 * \<bar>y\<bar>) a b"

subsection \<open>The ragged sequence of streamlines\<close>

text \<open>
  The \<open>streamlines\<close> property builds an \<open>ArraySequence\<close> from the positions, the offsets
  and the lengths derived from them. Indexing an \<open>ArraySequence\<close> with an index array
  keeps the data and picks the offsets and lengths at the indices (numpy raises when an
  index is out of bounds); \<open>get_data\<close> copies, for each (offset, length) pair in turn, the
  slice \<open>data[offset : offset + length]\<close> into the next \<open>length\<close> rows of the result. A
  Python slice is clipped to the data; numpy then accepts a slice of exactly \<open>length\<close>
  rows, repeats a slice of one row, and refuses any other.
\<close>

record 'a array_sequence =
  seq_data :: "'a list"
  seq_offsets :: "nat list"
  seq_lengths :: "nat list"

definition streamlines :: "('p, 'v) trx \<Rightarrow> 'p array_sequence" where
  "streamlines self =
     \<lparr>seq_data = zpos self, seq_offsets = zoff self,
      seq_lengths = compute_lengths (zoff self) (nb_points self)\<rparr>"

definition take_rows :: "'a list \<Rightarrow> nat list \<Rightarrow> error + 'a list" where
  "take_rows v indices =
     (if list_all (\<lambda>i. i < length v) indices then Inr (map (\<lambda>i. v ! i) indices)
      else Inl IndexError)"

definition getitem :: "'a array_sequence \<Rightarrow> nat list \<Rightarrow> error + 'a array_sequence" where
  "getitem seq indices =
     (case take_rows (seq_offsets seq) indices of
        Inl e \<Rightarrow> Inl e
      | Inr offs \<Rightarrow>
          (case take_rows (seq_lengths seq) indices of
             Inl e \<Rightarrow> Inl e
           | Inr lens \<Rightarrow> Inr \<lparr>seq_data = seq_data seq, seq_offsets = offs, seq_lengths = lens\<rparr>))"

fun copy_chunks :: "'a list \<Rightarrow> (nat \<times> nat) list \<Rightarrow> error + 'a list" where
  "copy_chunks d [] = Inr []"
| "copy_chunks d ((offset, len) # rest) =
     (let chunk = take len (drop offset d) in
      if length chunk = len then
        (case copy_chunks d rest of Inl e \<Rightarrow> Inl e | Inr r \<Rightarrow> Inr (chunk @ r))
      else if length chunk = 1 then
        (case copy_chunks d rest of Inl e \<Rightarrow> Inl e | Inr r \<Rightarrow> Inr (replicate len (hd chunk) @ r))
      else Inl BroadcastError)"

definition get_data :: "'a array_sequence \<Rightarrow> error + 'a list" where
  "get_data seq = copy_chunks (seq_data seq) (zip (seq_offsets seq) (seq_lengths seq))"

fun cumsum_from :: "nat \<Rightarrow> nat list \<Rightarrow> nat list" where
  "cumsum_from acc [] = []"
| "cumsum_from acc (x # xs) = (acc + x) # cumsum_from (acc + x) xs"

definition cumsum :: "nat list \<Rightarrow> nat list" where
  "cumsum xs = cumsum_from 0 xs"

subsection \<open>Construction from a template, pruning, emptiness\<close>

definition empty_like :: "(string \<times> 'a list) list \<Rightarrow> (string \<times> 'a list) list" where
  "empty_like arrays = map (\<lambda>(k, v). (k, [])) arrays"

text \<open>
  \<open>TrxFile(init_as=...)\<close>: the space attributes of the template, zero counts, a fresh
  temporary store, and every key of the template with a zero-row array. A per-group
  namespace of the template that has no member is not created.
\<close>

definition init_as :: "('p, 'v) trx \<Rightarrow> ('p, 'v) trx" where
  "init_as t =
     \<lparr>voxel_to_rasmm = voxel_to_rasmm t, dimensions = dimensions t,
      nb_points = 0, nb_streamlines = 0, storage = TempStore,
      zpos = [], zoff = [],
      zdpp = empty_like (zdpp t), zdps = empty_like (zdps t), zgrp = empty_like (zgrp t),
      zdpg = map (\<lambda>(g, ks). (g, empty_like ks)) (filter (\<lambda>(g, ks). length ks \<noteq> 0) (zdpg t))\<rparr>"

definition prune_arrays :: "bool \<Rightarrow> (string \<times> 'a list) list \<Rightarrow> (string \<times> 'a list) list" where
  "prune_arrays force arrays = filter (\<lambda>(k, v). \<not> (length v = 0 \<or> force)) arrays"

definition prune_metadata :: "('p, 'v) trx \<Rightarrow> bool \<Rightarrow> ('p, 'v) trx" where
  "prune_metadata self force =
     (let grp = prune_arrays force (zgrp self) in
      self\<lparr>zdpp := prune_arrays force (zdpp self),
           zdps := prune_arrays force (zdps self),
           zgrp := grp,
           zdpg := map (\<lambda>(g, ks). (g, prune_arrays force ks))
                     (filter (\<lambda>(g, ks). g \<in> set (map fst grp)) (zdpg self))\<rparr>)"

text \<open>\<open>is_empty\<close> prunes the container first, so it returns the container as well.\<close>

definition is_empty :: "('p, 'v) trx \<Rightarrow> bool \<times> ('p, 'v) trx" where
  "is_empty self =
     (let self' = prune_metadata self False in
      (\<not> (length (zdpp self') \<noteq> 0 \<or> length (zdps self') \<noteq> 0 \<or> length (zgrp self') \<noteq> 0 \<or>
           length (zdpg self') \<noteq> 0 \<or> length (zpos self') \<noteq> 0 \<or> length (zoff self') \<noteq> 0),
       self'))"

subsection \<open>append\<close>

text \<open>
  \<open>append\<close> mutates \<open>self\<close>, and through \<open>is_empty\<close> also \<open>app_trx\<close>: the model returns
  the raised error, if any, and both containers as the call leaves them.

  \<open>both_not_empty\<close> is the guard \<open>not self.is_empty() and not app_trx.is_empty()\<close>;
  Python's \<open>and\<close> does not evaluate its second operand when the first is false.
\<close>

definition both_not_empty ::
  "('p, 'v) trx \<Rightarrow> ('p, 'v) trx \<Rightarrow> bool \<times> ('p, 'v) trx \<times> ('p, 'v) trx" where
  "both_not_empty self app_trx =
     (let (e1, self') = is_empty self in
      if e1 then (False, self', app_trx)
      else (let (e2, app') = is_empty app_trx in (\<not> e2, self', app')))"

text \<open>The checks of lines 185 to 211.\<close>

definition append_checks ::
  "('p, 'v) trx \<Rightarrow> ('p, 'v) trx \<Rightarrow> bool \<Rightarrow> bool \<Rightarrow> error option \<times> ('p, 'v) trx \<times> ('p, 'v) trx" where
  "append_checks self app_trx delete_dpg keep_first_dpg =
     (if \<not> allclose (voxel_to_rasmm self) (voxel_to_rasmm app_trx) \<or>
         \<not> (dimensions self = dimensions app_trx)
      then (Some SchemaMismatch, self, app_trx)
      else if storage self = ZipStore then (Some ImmutableBackendError, self, app_trx)
      else if delete_dpg \<and> keep_first_dpg then (Some ConflictingPolicy, self, app_trx)
      else
        (let (b1, self1, app1) = both_not_empty self app_trx in
         if b1 \<and> \<not> check_same_keys (map fst (zdpp self1)) (map fst (zdpp app1))
         then (Some KeySetMismatch, self1, app1)
         else
           (let (b2, self2, app2) = both_not_empty self1 app1 in
            if b2 \<and> \<not> check_same_keys (map fst (zdps self2)) (map fst (zdps app2))
            then (Some KeySetMismatch, self2, app2)
            else if \<not> (delete_dpg \<or> keep_first_dpg) \<and>
                    (length (zdpg self2) \<noteq> 0 \<or> length (zdpg self2) \<noteq> 0)
            then (Some AmbiguousGroupPolicy, self2, app2)
            else (None, self2, app2))))"

text \<open>
  \<open>for key in self.keys: self[key].append(app_trx[key])\<close>: a key that \<open>app_trx\<close> lacks
  raises \<open>KeyError\<close> and leaves the arrays before it grown.
\<close>

fun append_arrays ::
  "(string \<times> 'a list) list \<Rightarrow> (string \<times> 'a list) list \<Rightarrow> error option \<times> (string \<times> 'a list) list" where
  "append_arrays [] src = (None, [])"
| "append_arrays ((k, v) # rest) src =
     (case map_of src k of
        None \<Rightarrow> (Some KeyError, (k, v) # rest)
      | Some w \<Rightarrow> (let (e, r) = append_arrays rest src in (e, (k, v @ w) # r)))"

definition append_groups ::
  "(string \<times> nat list) list \<Rightarrow> (string \<times> nat list) list \<Rightarrow> nat \<Rightarrow> (string \<times> nat list) list" where
  "append_groups grp src shift =
     map (\<lambda>(k, v). case map_of src k of
                     None \<Rightarrow> (k, v)
                   | Some w \<Rightarrow> (k, v @ map (\<lambda>i. i + shift) w)) grp"

definition append_dpg ::
  "(string \<times> (string \<times> 'a list) list) list \<Rightarrow> (string \<times> (string \<times> 'a list) list) list \<Rightarrow>
   (string \<times> (string \<times> 'a list) list) list" where
  "append_dpg dpg src =
     map (\<lambda>(g, ks).
            (g, map (\<lambda>(k, v). case map_of src g of
                                None \<Rightarrow> (k, v)
                              | Some sks \<Rightarrow> (case map_of sks k of
                                              None \<Rightarrow> (k, v)
                                            | Some w \<Rightarrow> (k, v @ w))) ks)) dpg"

text \<open>
  The growth of lines 213 to 236. The counts are updated (lines 216 and 217) before the
  metadata loops run, so the group loop of line 227 reads the updated \<open>nb_streamlines\<close>.
\<close>

definition append_grow ::
  "('p, 'v) trx \<Rightarrow> ('p, 'v) trx \<Rightarrow> bool \<Rightarrow> error option \<times> ('p, 'v) trx \<times> ('p, 'v) trx" where
  "append_grow self app_trx keep_first_dpg =
     (let self1 = self\<lparr>zpos := zpos self @ zpos app_trx\<rparr>;
          self2 = self1\<lparr>zoff := zoff self1 @ map (\<lambda>off. off + nb_points self1) (zoff app_trx)\<rparr>;
          self3 = self2\<lparr>nb_points := nb_points self2 + nb_points app_trx\<rparr>;
          self4 = self3\<lparr>nb_streamlines := nb_streamlines self3 + nb_streamlines app_trx\<rparr>;
          (emp, app1) = is_empty app_trx
      in if emp then (None, self4, app1)
         else
           (case append_arrays (zdpp self4) (zdpp app1) of
              (Some e, dpp) \<Rightarrow> (Some e, self4\<lparr>zdpp := dpp\<rparr>, app1)
            | (None, dpp) \<Rightarrow>
                (let self5 = self4\<lparr>zdpp := dpp\<rparr> in
                 case append_arrays (zdps self5) (zdps app1) of
                   (Some e, dps) \<Rightarrow> (Some e, self5\<lparr>zdps := dps\<rparr>, app1)
                 | (None, dps) \<Rightarrow>
                     (let self6 = self5\<lparr>zdps := dps\<rparr>;
                          self7 = self6\<lparr>zgrp := append_groups (zgrp self6) (zgrp app1)
                                                    (nb_streamlines self6)\<rparr>;
                          self8 = (if keep_first_dpg
                                   then self7\<lparr>zdpg := append_dpg (zdpg self7) (zdpg app1)\<rparr>
                                   else self7)
                      in (None, self8, app1)))))"

definition append ::
  "('p, 'v) trx \<Rightarrow> ('p, 'v) trx \<Rightarrow> bool \<Rightarrow> bool \<Rightarrow> error option \<times> ('p, 'v) trx \<times> ('p, 'v) trx" where
  "append self app_trx delete_dpg keep_first_dpg =
     (case append_checks self app_trx delete_dpg keep_first_dpg of
        (Some e, self', app') \<Rightarrow> (Some e, self', app')
      | (None, self', app') \<Rightarrow> append_grow self' app' keep_first_dpg)"

subsection \<open>select\<close>

text \<open>
  The metadata loops of \<open>select\<close> run over the keys of \<open>self\<close> and append to the array of
  the same key in the new container, which \<open>init_as\<close> created with zero rows: the new
  array is the gathered data. Any exception ends the call, and the new container is lost.
\<close>

fun gather_arrays ::
  "('a list \<Rightarrow> error + 'a list) \<Rightarrow> (string \<times> 'a list) list \<Rightarrow> error + (string \<times> 'a list) list" where
  "gather_arrays f [] = Inr []"
| "gather_arrays f ((k, v) # rest) =
     (case f v of
        Inl e \<Rightarrow> Inl e
      | Inr w \<Rightarrow> (case gather_arrays f rest of Inl e \<Rightarrow> Inl e | Inr r \<Rightarrow> Inr ((k, w) # r)))"

definition gather_points ::
  "'p array_sequence \<Rightarrow> nat list \<Rightarrow> 'a list \<Rightarrow> error + 'a list" where
  "gather_points tmp_streamlines indices v =
     (case getitem \<lparr>seq_data = v, seq_offsets = seq_offsets tmp_streamlines,
                    seq_lengths = seq_lengths tmp_streamlines\<rparr> indices of
        Inl e \<Rightarrow> Inl e
      | Inr s \<Rightarrow> get_data s)"

text \<open>
  The group loop of lines 359 to 365: a group with no member left is deleted from the new
  container, any other gets its new members.
\<close>

fun select_groups :: "(string \<times> nat list) list \<Rightarrow> nat list \<Rightarrow> error + (string \<times> nat list) list" where
  "select_groups [] indices = Inr []"
| "select_groups ((k, g) # rest) indices =
     (case intersect_groups g indices of
        Inl e \<Rightarrow> Inl e
      | Inr new_group \<Rightarrow>
          (case select_groups rest indices of
             Inl e \<Rightarrow> Inl e
           | Inr r \<Rightarrow> Inr (if length new_group \<noteq> 0 then (k, new_group) # r else r)))"

definition select_dpg ::
  "(string \<times> (string \<times> 'a list) list) list \<Rightarrow> (string \<times> nat list) list \<Rightarrow>
   (string \<times> (string \<times> 'a list) list) list" where
  "select_dpg dpg new_grp =
     map (\<lambda>(g, ks). (g, if g \<in> set (map fst new_grp) then ks else empty_like ks))
       (filter (\<lambda>(g, ks). length ks \<noteq> 0) dpg)"

definition select :: "('p, 'v) trx \<Rightarrow> int list \<Rightarrow> bool \<Rightarrow> error + ('p, 'v) trx" where
  "select self indices0 keep_group =
     (let indices = map to_uint32 indices0 in
      if length indices \<noteq> 0 \<and>
         (int (Max (set indices)) > int (nb_streamlines self) - 1 \<or> int (Min (set indices)) < 0)
      then Inl IndexOutOfRange
      else
        (let new_trx = init_as self in
         if length indices = 0 then Inr (prune_metadata new_trx False)
         else
           (let tmp_streamlines = streamlines self in
            case gather_points tmp_streamlines indices (zpos self) of
              Inl e \<Rightarrow> Inl e
            | Inr pos \<Rightarrow>
            (case getitem tmp_streamlines indices of
              Inl e \<Rightarrow> Inl e
            | Inr sel \<Rightarrow>
            (let new_offsets = cumsum (butlast (seq_lengths sel)) in
             case gather_arrays (gather_points tmp_streamlines indices) (zdpp self) of
               Inl e \<Rightarrow> Inl e
             | Inr dpp \<Rightarrow>
             (case gather_arrays (\<lambda>v. take_rows v indices) (zdps self) of
               Inl e \<Rightarrow> Inl e
             | Inr dps \<Rightarrow>
             (case (if keep_group then select_groups (zgrp self) indices
                    else Inr (zgrp new_trx)) of
               Inl e \<Rightarrow> Inl e
             | Inr grp \<Rightarrow>
                 (let new_trx = new_trx\<lparr>zpos := zpos new_trx @ pos,
                                        zoff := zoff new_trx @ (0 # new_offsets),
                                        zdpp := dpp, zdps := dps, zgrp := grp,
                                        zdpg := select_dpg (zdpg self) grp\<rparr>;
                      new_trx = new_trx\<lparr>nb_streamlines := length (zoff new_trx)\<rparr>;
                      new_trx = new_trx\<lparr>nb_points := length (zpos new_trx)\<rparr>
                  in Inr (prune_metadata new_trx False)))))))))"

subsection \<open>Validity of a container\<close>

text \<open>
  The count invariant of the data model: the offsets have one entry per streamline, the
  positions one row per point, and the point count is the last offset plus the derived
  length of the last streamline, as the \<open>streamlines\<close> accessor derives it. With no
  streamline the accessor derives the single length 0 and there is no last offset: the
  sum is then read as 0.
\<close>

definition last_offset :: "('p, 'v) trx \<Rightarrow> nat" where
  "last_offset c = (case zoff c of [] \<Rightarrow> 0 | _ # _ \<Rightarrow> last (zoff c))"

definition count_inv :: "('p, 'v) trx \<Rightarrow> bool" where
  "count_inv c \<longleftrightarrow>
     length (zoff c) = nb_streamlines c \<and> length (zpos c) = nb_points c \<and>
     nb_points c = last_offset c + last (seq_lengths (streamlines c))"

subsection \<open>Statement helpers\<close>

text \<open>
  \<open>selected\<close> is the container that \<open>select\<close> returns for a non-empty index sequence,
  written in terms of the gathered positions, the lengths of the selected streamlines
  and the gathered metadata (lines 336 to 377 once every gather has succeeded).
\<close>

definition selected ::
  "('p, 'v) trx \<Rightarrow> 'p list \<Rightarrow> nat list \<Rightarrow> (string \<times> 'v list) list \<Rightarrow> (string \<times> 'v list) list \<Rightarrow>
   (string \<times> nat list) list \<Rightarrow> ('p, 'v) trx" where
  "selected c pos lens dpp dps grp =
     prune_metadata
       \<lparr>voxel_to_rasmm = voxel_to_rasmm c, dimensions = dimensions c,
        nb_points = length pos, nb_streamlines = length lens, storage = TempStore,
        zpos = pos, zoff = 0 # cumsum (butlast lens), zdpp = dpp, zdps = dps, zgrp = grp,
        zdpg = select_dpg (zdpg c) grp\<rparr> False"

text \<open>
  \<open>kept_data c c'\<close>: the attributes, counts, positions and offsets of \<open>c'\<close> are those of
  \<open>c\<close>, and the per-point, per-streamline and group arrays that have at least one row
  are the same in both.
\<close>

definition kept_data :: "('p, 'v) trx \<Rightarrow> ('p, 'v) trx \<Rightarrow> bool" where
  "kept_data c c' \<longleftrightarrow>
     voxel_to_rasmm c' = voxel_to_rasmm c \<and> dimensions c' = dimensions c \<and>
     storage c' = storage c \<and>
     nb_points c' = nb_points c \<and> nb_streamlines c' = nb_streamlines c \<and>
     zpos c' = zpos c \<and> zoff c' = zoff c \<and>
     prune_arrays False (zdpp c') = prune_arrays False (zdpp c) \<and>
     prune_arrays False (zdps c') = prune_arrays False (zdps c) \<and>
     prune_arrays False (zgrp c') = prune_arrays False (zgrp c)"

subsection \<open>Example containers\<close>

text \<open>
  Points and metadata rows are numbered, so that every row can be told apart. All
  examples live in the blank space (identity affine, unit grid).
\<close>

definition eye4 :: "real list" where
  "eye4 = [1, 0, 0, 0,  0, 1, 0, 0,  0, 0, 1, 0,  0, 0, 0, 1]"

definition blank :: "(nat, nat) trx" where
  "blank = \<lparr>voxel_to_rasmm = eye4, dimensions = [1, 1, 1], nb_points = 0, nb_streamlines = 0,
            storage = TempStore, zpos = [], zoff = [], zdpp = [], zdps = [], zgrp = [],
            zdpg = []\<rparr>"

text \<open>One streamline of two points, in the group \<open>g\<close>.\<close>

definition ex_target :: "(nat, nat) trx" where
  "ex_target = blank\<lparr>nb_points := 2, nb_streamlines := 1, zpos := [10, 11], zoff := [0],
                     zgrp := [(''g'', [0])]\<rparr>"

text \<open>One streamline of one point, in the group \<open>g\<close>.\<close>

definition ex_source :: "(nat, nat) trx" where
  "ex_source = blank\<lparr>nb_points := 1, nb_streamlines := 1, zpos := [20], zoff := [0],
                     zgrp := [(''g'', [0])]\<rparr>"

text \<open>The same source, holding one row of per-group data for \<open>g\<close>.\<close>

definition ex_source_dpg :: "(nat, nat) trx" where
  "ex_source_dpg = ex_source\<lparr>zdpg := [(''g'', [(''mean'', [7])])]\<rparr>"

text \<open>
  Three streamlines of 2, 3 and 2 points (offsets 0, 2, 5), with one per-point array, one
  per-streamline array, the group \<open>g1 = {0, 2}\<close> and one per-group array.
\<close>

definition ex_a :: "(nat, nat) trx" where
  "ex_a = blank\<lparr>nb_points := 7, nb_streamlines := 3,
                zpos := [10, 11, 20, 21, 22, 30, 31], zoff := [0, 2, 5],
                zdpp := [(''color'', [1, 2, 3, 4, 5, 6, 7])],
                zdps := [(''weight'', [100, 200, 300])],
                zgrp := [(''g1'', [0, 2])],
                zdpg := [(''g1'', [(''mean'', [5])])]\<rparr>"

text \<open>
  One streamline with a per-point array \<open>color\<close>, and a group \<open>g\<close> that has no member.
\<close>

definition ex_tagged :: "(nat, nat) trx" where
  "ex_tagged = blank\<lparr>nb_points := 1, nb_streamlines := 1, zpos := [10], zoff := [0],
                     zdpp := [(''color'', [1])], zgrp := [(''g'', [])]\<rparr>"

text \<open>One streamline with a per-point array of another name, \<open>fa\<close>.\<close>

definition ex_other :: "(nat, nat) trx" where
  "ex_other = blank\<lparr>nb_points := 1, nb_streamlines := 1, zpos := [20], zoff := [0],
                    zdpp := [(''fa'', [9])]\<rparr>"

section \<open>Properties\<close>

lemmas example_defs = blank_def ex_target_def ex_source_def ex_source_dpg_def ex_a_def eye4_def

lemmas append_defs = append_def append_checks_def append_grow_def both_not_empty_def
  is_empty_def prune_metadata_def prune_arrays_def allclose_def check_same_keys_def
  append_groups_def append_dpg_def

subsection \<open>compute\_lengths on an empty offsets sequence\<close>

text \<open>
  Claim C9. For every point count, \<open>compute_lengths\<close> of an empty offsets sequence is the
  one-element array \<open>[0]\<close>, not an empty array; so the \<open>streamlines\<close> accessor of a
  container with no streamline derives exactly one length, which is zero.
\<close>

theorem compute_lengths_empty_offsets:
  "compute_lengths [] nb_pts = [0] \<and>
   (zoff c = [] \<longrightarrow>
      seq_lengths (streamlines c) = [0] \<and> length (seq_lengths (streamlines c)) = 1)"
  by (simp add: compute_lengths_def streamlines_def to_uint32_def)

theorem compute_lengths_empty_offsets_witness:
  "zoff blank = [] \<and> compute_lengths [] 5 = [0] \<and> seq_lengths (streamlines blank) = [0]"
  using compute_lengths_empty_offsets [of 5 blank] by (simp add: blank_def)

subsection \<open>append: the shift of the group indices\<close>

text \<open>
  Claim C1 (the code departs from it). The target holds one streamline and the group
  \<open>g = [0]\<close>, the source one streamline and the group \<open>g = [0]\<close>. The source's member is
  streamline 1 of the grown target, which is what a shift by the target's count before
  the append (1) gives. The code has already added the source's count to
  \<open>nb_streamlines\<close> when it shifts, so it appends \<open>0 + 2 = 2\<close>: the group becomes
  \<open>[0, 2]\<close> in a container of two streamlines.
\<close>

theorem append_group_shift_uses_grown_count:
  "append ex_target ex_source False True =
     (None,
      ex_target\<lparr>nb_points := 3, nb_streamlines := 2, zpos := [10, 11, 20], zoff := [0, 2],
                zgrp := [(''g'', [0, 2])]\<rparr>,
      ex_source)"
  by (simp add: example_defs append_defs)

subsection \<open>append: the group policy check\<close>

text \<open>
  Claim C4 (the code departs from it). With neither policy chosen, the check of line 209
  reads the target's per-group namespace twice and never the source's. Here only the
  source holds per-group data: no error is raised and the target is grown.
\<close>

theorem append_no_policy_source_dpg_not_refused:
  "append ex_target ex_source_dpg False False =
     (None,
      ex_target\<lparr>nb_points := 3, nb_streamlines := 2, zpos := [10, 11, 20], zoff := [0, 2],
                zgrp := [(''g'', [0, 2])]\<rparr>,
      ex_source_dpg)"
  by (simp add: example_defs append_defs del: set_filter)

subsection \<open>select: the cast of the indices and the range check\<close>

lemmas select_defs = select_def init_as_def empty_like_def streamlines_def compute_lengths_def
  to_uint32_def gather_points_def getitem_def take_rows_def get_data_def cumsum_def
  select_dpg_def prune_metadata_def prune_arrays_def intersect_groups_def argsort_def
  searchsorted_def take_clip_def Let_def












subsection \<open>Pruning and the two phases of append\<close>

lemma prune_arrays_idem: "prune_arrays f (prune_arrays f xs) = prune_arrays f xs"
  by (simp add: prune_arrays_def)

lemma fst_prune_arrays_subset: "k \<in> fst ` set (prune_arrays f xs) \<Longrightarrow> k \<in> fst ` set xs"
  by (auto simp: prune_arrays_def)

lemma prune_metadata_core [simp]:
  "zpos (prune_metadata c f) = zpos c" "zoff (prune_metadata c f) = zoff c"
  "nb_points (prune_metadata c f) = nb_points c"
  "nb_streamlines (prune_metadata c f) = nb_streamlines c"
  "voxel_to_rasmm (prune_metadata c f) = voxel_to_rasmm c"
  "dimensions (prune_metadata c f) = dimensions c"
  "storage (prune_metadata c f) = storage c"
  by (simp_all add: prune_metadata_def Let_def)

lemma prune_metadata_arrays:
  "zdpp (prune_metadata c f) = prune_arrays f (zdpp c)"
  "zdps (prune_metadata c f) = prune_arrays f (zdps c)"
  "zgrp (prune_metadata c f) = prune_arrays f (zgrp c)"
  by (simp_all add: prune_metadata_def Let_def)

lemma prune_dpg_idem:
  "map (\<lambda>(g, ks). (g, prune_arrays f ks))
     (filter (\<lambda>(g, ks). g \<in> S) (map (\<lambda>(g, ks). (g, prune_arrays f ks)) (filter (\<lambda>(g, ks). g \<in> S) dpg)))
   = map (\<lambda>(g, ks). (g, prune_arrays f ks)) (filter (\<lambda>(g, ks). g \<in> S) dpg)"
  by (induction dpg) (auto simp: prune_arrays_idem)

lemma prune_metadata_idem: "prune_metadata (prune_metadata c f) f = prune_metadata c f"
  by (simp add: prune_metadata_def Let_def prune_arrays_idem prune_dpg_idem)

lemma is_empty_snd: "snd (is_empty c) = prune_metadata c False"
  by (simp add: is_empty_def Let_def)

lemma is_empty_prune: "is_empty (prune_metadata c False) = (fst (is_empty c), prune_metadata c False)"
  by (simp add: is_empty_def Let_def prune_metadata_idem)

lemma both_not_empty_states:
  assumes "both_not_empty t s = (b, t', s')"
  shows "t' = prune_metadata t False" and "s' = s \<or> s' = prune_metadata s False"
  using assms by (auto simp: both_not_empty_def is_empty_def Let_def split: if_splits)

lemma append_checks_states:
  assumes "append_checks t s d k = (r, t', s')"
  shows "(t' = t \<or> t' = prune_metadata t False) \<and> (s' = s \<or> s' = prune_metadata s False)"
    and "r \<in> {Some SchemaMismatch, Some ImmutableBackendError, Some ConflictingPolicy} \<Longrightarrow> t' = t \<and> s' = s"
    and "r \<in> {None, Some SchemaMismatch, Some ImmutableBackendError, Some ConflictingPolicy,
               Some KeySetMismatch, Some AmbiguousGroupPolicy}"
    and "r = None \<Longrightarrow> t' = prune_metadata t False"
proof -
  obtain b1 t1 s1 where b1: "both_not_empty t s = (b1, t1, s1)" by (cases "both_not_empty t s") auto
  obtain b2 t2 s2 where b2: "both_not_empty t1 s1 = (b2, t2, s2)" by (cases "both_not_empty t1 s1") auto
  note st1 = both_not_empty_states [OF b1]
  note st2 = both_not_empty_states [OF b2]
  have t2: "t2 = prune_metadata t False" using st1 st2 by (simp add: prune_metadata_idem)
  have s2: "s2 = s \<or> s2 = prune_metadata s False" using st1 st2 by (auto simp: prune_metadata_idem)
  show "(t' = t \<or> t' = prune_metadata t False) \<and> (s' = s \<or> s' = prune_metadata s False)"
    using assms b1 b2 st1 t2 s2 by (auto simp: append_checks_def split: if_splits)
  show "r \<in> {Some SchemaMismatch, Some ImmutableBackendError, Some ConflictingPolicy} \<Longrightarrow> t' = t \<and> s' = s"
    using assms b1 b2 by (auto simp: append_checks_def split: if_splits)
  show "r \<in> {None, Some SchemaMismatch, Some ImmutableBackendError, Some ConflictingPolicy,
               Some KeySetMismatch, Some AmbiguousGroupPolicy}"
    using assms b1 b2 by (auto simp: append_checks_def split: if_splits)
  show "r = None \<Longrightarrow> t' = prune_metadata t False"
    using assms b1 b2 t2 by (auto simp: append_checks_def split: if_splits)
qed


lemma append_arrays_error: "fst (append_arrays a b) = None \<or> fst (append_arrays a b) = Some KeyError"
  by (induction a b rule: append_arrays.induct) (auto split: option.splits prod.splits)

lemma append_grow_core:
  assumes "append_grow t s k = (r, t', s')"
  shows "zpos t' = zpos t @ zpos s"
    and "zoff t' = zoff t @ map (\<lambda>off. off + nb_points t) (zoff s)"
    and "nb_points t' = nb_points t + nb_points s"
    and "nb_streamlines t' = nb_streamlines t + nb_streamlines s"
    and "s' = prune_metadata s False"
  using assms
  by (auto simp: append_grow_def Let_def is_empty_def split: if_splits prod.splits option.splits)

lemma append_grow_error:
  assumes "append_grow t s k = (r, t', s')"
  shows "r = None \<or> r = Some KeyError"
proof -
  have e: "\<And>a b x y. append_arrays a b = (Some x, y) \<Longrightarrow> x = KeyError"
    using append_arrays_error by (metis fst_conv option.distinct(1) option.inject)
  show ?thesis using assms
    by (auto simp: append_grow_def Let_def is_empty_def split: if_splits prod.splits option.splits dest: e)
qed

lemma append_cases:
  assumes "append t s d k = (r, t', s')"
  obtains (failed) e where "r = Some e" "append_checks t s d k = (Some e, t', s')"
  | (grown) t1 s1 where "append_checks t s d k = (None, t1, s1)" "append_grow t1 s1 k = (r, t', s')"
  using assms by (auto simp: append_def split: prod.splits option.splits)


lemma to_uint32_small: "m < 2 ^ 32 \<Longrightarrow> to_uint32 (int m) = m"
  by (simp add: to_uint32_def nat_mod_distrib flip: of_nat_mod)

lemma to_uint32_lt: "to_uint32 i < 2 ^ 32"
  unfolding to_uint32_def
  using pos_mod_bound [of "2 ^ 32" i] pos_mod_sign [of "2 ^ 32" i]
  by (simp add: nat_less_iff)

lemma last_compute_lengths:
  "last (compute_lengths offs p) =
     (if length offs > 1 then to_uint32 (int p - int (last offs))
      else if length offs = 1 then to_uint32 (int p) else 0)"
  by (simp add: compute_lengths_def to_uint32_def last_map)

lemma count_inv_iff:
  "count_inv c \<longleftrightarrow>
     length (zoff c) = nb_streamlines c \<and> length (zpos c) = nb_points c \<and>
     nb_points c =
       (if length (zoff c) > 1
        then last (zoff c) + to_uint32 (int (nb_points c) - int (last (zoff c)))
        else if length (zoff c) = 1 then last (zoff c) + to_uint32 (int (nb_points c))
        else 0)"
  by (cases "zoff c")
     (auto simp: count_inv_def last_offset_def streamlines_def last_compute_lengths)

lemma count_inv_cong:
  assumes "zoff a = zoff b" "zpos a = zpos b" "nb_points a = nb_points b"
    "nb_streamlines a = nb_streamlines b"
  shows "count_inv a = count_inv b"
  using assms by (simp add: count_inv_def last_offset_def streamlines_def split: list.split)

lemma count_inv_prune: "count_inv (prune_metadata c f) = count_inv c"
  by (rule count_inv_cong) simp_all

lemma tail_length_grown:
  assumes t: "pt = (if length ot > 1 then last ot + to_uint32 (int pt - int (last ot))
                    else if length ot = 1 then last ot + to_uint32 (int pt) else 0)"
    and s: "ps = (if length os > 1 then last os + to_uint32 (int ps - int (last os))
                  else if length os = 1 then last os + to_uint32 (int ps) else 0)"
    and ne: "os \<noteq> []"
  defines "offs \<equiv> ot @ map (\<lambda>off. off + pt) os"
  shows "pt + ps = (if length offs > 1 then last offs + to_uint32 (int (pt + ps) - int (last offs))
                    else if length offs = 1 then last offs + to_uint32 (int (pt + ps)) else 0)"
proof -
  have lastn: "last offs = last os + pt" using ne by (simp add: offs_def last_map)
  have d: "ps = last os + to_uint32 (int ps - int (last os))"
  proof (cases "length os > 1")
    case True then show ?thesis using s by simp
  next
    case False
    then have one: "length os = 1" using ne by (cases os) auto
    then have e: "ps = last os + to_uint32 (int ps)" using s by simp
    then have "int ps - int (last os) = int (to_uint32 (int ps))" by linarith
    then have "to_uint32 (int ps - int (last os)) = to_uint32 (int ps)"
      using to_uint32_small [OF to_uint32_lt] by simp
    with e show ?thesis by simp
  qed
  show ?thesis
  proof (cases "length offs > 1")
    case True
    have "to_uint32 (int (pt + ps) - int (last offs)) = to_uint32 (int ps - int (last os))"
      by (rule arg_cong [where f = to_uint32]) (simp add: lastn)
    with d lastn have "pt + ps = last offs + to_uint32 (int (pt + ps) - int (last offs))"
      by linarith
    with True show ?thesis by (simp only: if_True)
  next
    case False
    then have "ot = []" "length os = 1" using ne by (cases ot; cases os; auto simp: offs_def)+
    then have "pt = 0" using t by simp
    with s \<open>length os = 1\<close> \<open>ot = []\<close> show ?thesis by (simp add: offs_def)
  qed
qed

lemma count_inv_grown:
  assumes t: "count_inv t" and s: "count_inv s"
    and pos: "zpos t' = zpos t @ zpos s"
    and off: "zoff t' = zoff t @ map (\<lambda>off. off + nb_points t) (zoff s)"
    and p: "nb_points t' = nb_points t + nb_points s"
    and n: "nb_streamlines t' = nb_streamlines t + nb_streamlines s"
  shows "count_inv t'"
proof (cases "zoff s = []")
  case True
  with s have "nb_points s = 0" "nb_streamlines s = 0" "zpos s = []"
    by (auto simp: count_inv_iff)
  with True pos off p n have "count_inv t' = count_inv t" by (intro count_inv_cong) auto
  with t show ?thesis by simp
next
  case False
  from t s have lens: "length (zoff t') = nb_streamlines t'" "length (zpos t') = nb_points t'"
    using pos off p n by (auto simp: count_inv_iff)
  have "nb_points t' =
      (if length (zoff t') > 1
       then last (zoff t') + to_uint32 (int (nb_points t') - int (last (zoff t')))
       else if length (zoff t') = 1 then last (zoff t') + to_uint32 (int (nb_points t'))
       else 0)"
    unfolding off p
    by (rule tail_length_grown [OF t [unfolded count_inv_iff, THEN conjunct2, THEN conjunct2]
          s [unfolded count_inv_iff, THEN conjunct2, THEN conjunct2] False])
  with lens show ?thesis unfolding count_inv_iff by blast
qed

lemma count_inv_append:
  assumes "count_inv t" "count_inv s" "append t s d k = (r, t', s')"
  shows "count_inv t' \<and> count_inv s'"
  using assms(3)
proof (cases rule: append_cases)
  case (failed e)
  from append_checks_states(1) [OF failed(2)] assms(1,2) show ?thesis
    by (auto simp: count_inv_prune)
next
  case (grown t1 s1)
  from append_checks_states(1) [OF grown(1)] assms(1,2)
  have c1: "count_inv t1" "count_inv s1" by (auto simp: count_inv_prune)
  note g = append_grow_core [OF grown(2)]
  have "count_inv t'" by (rule count_inv_grown [OF c1 g(1-4)])
  moreover have "count_inv s'" using g(5) c1(2) by (simp add: count_inv_prune)
  ultimately show ?thesis by simp
qed

subsection \<open>The container select builds\<close>

lemma select_empty: "select c [] kg = Inr (prune_metadata (init_as c) False)"
  by (simp add: select_def)

lemma length_cumsum_from: "length (cumsum_from a xs) = length xs"
  by (induction xs arbitrary: a) auto

lemma length_cumsum: "length (cumsum xs) = length xs"
  by (simp add: cumsum_def length_cumsum_from)

lemma take_rows_Inr:
  "take_rows v idx = Inr w \<longleftrightarrow> list_all (\<lambda>i. i < length v) idx \<and> w = map (\<lambda>i. v ! i) idx"
  by (auto simp: take_rows_def)

lemma select_Inr_nonempty:
  assumes "select c idx0 kg = Inr r" and "idx0 \<noteq> []"
  defines "idx \<equiv> map to_uint32 idx0"
  obtains offs lens pos dpp dps grp where
    "take_rows (zoff c) idx = Inr offs"
    "take_rows (compute_lengths (zoff c) (nb_points c)) idx = Inr lens"
    "copy_chunks (zpos c) (zip offs lens) = Inr pos"
    "gather_arrays (gather_points (streamlines c) idx) (zdpp c) = Inr dpp"
    "gather_arrays (\<lambda>v. take_rows v idx) (zdps c) = Inr dps"
    "(if kg then select_groups (zgrp c) idx else Inr (empty_like (zgrp c))) = Inr grp"
    "r = selected c pos lens dpp dps grp"
    "list_all (\<lambda>i. i < nb_streamlines c) idx"
proof -
  have ne: "idx \<noteq> []" using assms(2) by (simp add: idx_def)
  have rng: "\<not> int (nb_streamlines c) - 1 < int (Max (set idx))"
    using assms(1) ne unfolding select_def idx_def [symmetric] Let_def
    by (auto split: if_splits)
  have all: "list_all (\<lambda>i. i < nb_streamlines c) idx"
  proof -
    have m: "Max (set idx) < nb_streamlines c" using rng by linarith
    have "i < nb_streamlines c" if "i \<in> set idx" for i
    proof -
      have "i \<le> Max (set idx)" using that by (intro Max_ge) auto
      with m show ?thesis by linarith
    qed
    then show ?thesis by (simp add: list_all_iff)
  qed
  from assms(1) ne rng obtain pos sel dpp dps grp where
    s: "gather_points (streamlines c) idx (zpos c) = Inr pos"
       "getitem (streamlines c) idx = Inr sel"
       "gather_arrays (gather_points (streamlines c) idx) (zdpp c) = Inr dpp"
       "gather_arrays (\<lambda>v. take_rows v idx) (zdps c) = Inr dps"
       "(if kg then select_groups (zgrp c) idx else Inr (zgrp (init_as c))) = Inr grp"
       "r = prune_metadata
          ((init_as c)\<lparr>zpos := zpos (init_as c) @ pos,
                        zoff := zoff (init_as c) @ (0 # cumsum (butlast (seq_lengths sel))),
                        zdpp := dpp, zdps := dps, zgrp := grp,
                        zdpg := select_dpg (zdpg c) grp,
                        nb_streamlines := length (zoff (init_as c) @ (0 # cumsum (butlast (seq_lengths sel)))),
                        nb_points := length (zpos (init_as c) @ pos)\<rparr>) False"
    unfolding select_def idx_def [symmetric] Let_def
    by (auto split: if_splits sum.splits)
  from s(2) obtain offs lens where
    g: "take_rows (zoff c) idx = Inr offs"
       "take_rows (compute_lengths (zoff c) (nb_points c)) idx = Inr lens"
       "sel = \<lparr>seq_data = zpos c, seq_offsets = offs, seq_lengths = lens\<rparr>"
    by (auto simp: getitem_def streamlines_def split: sum.splits)
  from s(1) g have cp: "copy_chunks (zpos c) (zip offs lens) = Inr pos"
    by (auto simp: gather_points_def getitem_def get_data_def streamlines_def split: sum.splits)
  have "lens \<noteq> []" using g(2) ne by (auto simp: take_rows_Inr)
  then have len: "Suc (length (butlast lens)) = length lens" by simp
  have r: "r = selected c pos lens dpp dps grp"
    using s(6) g(3) len by (simp add: selected_def init_as_def length_cumsum)
  have grp: "(if kg then select_groups (zgrp c) idx else Inr (empty_like (zgrp c))) = Inr grp"
  proof -
    have z: "zgrp (init_as c) = empty_like (zgrp c)" by (simp add: init_as_def)
    show ?thesis using s(5) unfolding z .
  qed
  show ?thesis by (rule that [OF g(1) g(2) cp s(3) s(4) grp r all])
qed

lemma select_Inr_intro:
  assumes ne: "idx0 \<noteq> []"
    and all: "list_all (\<lambda>i. i < nb_streamlines c) (map to_uint32 idx0)"
    and g: "take_rows (zoff c) (map to_uint32 idx0) = Inr offs"
      "take_rows (compute_lengths (zoff c) (nb_points c)) (map to_uint32 idx0) = Inr lens"
    and cp: "copy_chunks (zpos c) (zip offs lens) = Inr pos"
    and dpp: "gather_arrays (gather_points (streamlines c) (map to_uint32 idx0)) (zdpp c) = Inr dpp"
    and dps: "gather_arrays (\<lambda>v. take_rows v (map to_uint32 idx0)) (zdps c) = Inr dps"
    and grp: "(if kg then select_groups (zgrp c) (map to_uint32 idx0)
               else Inr (empty_like (zgrp c))) = Inr grp"
  shows "select c idx0 kg = Inr (selected c pos lens dpp dps grp)"
proof -
  let ?idx = "map to_uint32 idx0"
  have nei: "?idx \<noteq> []" using ne by simp
  have "Max (set ?idx) \<in> set ?idx" using nei by (intro Max_in) auto
  then have "Max (set ?idx) < nb_streamlines c" using all unfolding list_all_iff by blast
  then have rng: "\<not> int (nb_streamlines c) - 1 < int (Max (set ?idx))" by linarith
  have gi: "getitem (streamlines c) ?idx = Inr \<lparr>seq_data = zpos c, seq_offsets = offs, seq_lengths = lens\<rparr>"
    using g by (simp add: getitem_def streamlines_def)
  have gp: "gather_points (streamlines c) ?idx (zpos c) = Inr pos"
    using g cp by (simp add: gather_points_def getitem_def get_data_def streamlines_def)
  have "lens \<noteq> []" using g(2) nei by (auto simp: take_rows_Inr)
  then have len: "Suc (length (butlast lens)) = length lens" by simp
  have z: "zgrp (init_as c) = empty_like (zgrp c)" by (simp add: init_as_def)
  have grp': "(if kg then select_groups (zgrp c) ?idx else Inr (zgrp (init_as c))) = Inr grp"
    unfolding z by (rule grp)
  show ?thesis
    unfolding select_def Let_def
    using nei rng gi gp dpp dps grp' len
    by (simp add: selected_def init_as_def length_cumsum)
qed

lemma copy_chunks_length:
  "copy_chunks d zs = Inr r \<Longrightarrow> length r = sum_list (map snd zs)"
proof (induction zs arbitrary: r)
  case Nil
  then show ?case by simp
next
  case (Cons z zs)
  obtain offset len where z: "z = (offset, len)" by (cases z)
  from Cons.prems obtain r' chunk where
    r': "copy_chunks d zs = Inr r'" and r: "r = chunk @ r'" and c: "length chunk = len"
    unfolding z copy_chunks.simps Let_def
    by (auto split: if_splits sum.splits)
  from Cons.IH [OF r'] r c z show ?case by simp
qed

lemma last_cumsum_from: "last (a # cumsum_from a xs) = a + sum_list xs"
  by (induction xs arbitrary: a) auto

lemma sum_list_butlast: "xs \<noteq> [] \<Longrightarrow> sum_list xs = sum_list (butlast xs) + (last xs :: nat)"
  by (induction xs) auto

lemma selected_core:
  "zpos (selected c pos lens dpp dps grp) = pos"
  "zoff (selected c pos lens dpp dps grp) = 0 # cumsum (butlast lens)"
  "nb_points (selected c pos lens dpp dps grp) = length pos"
  "nb_streamlines (selected c pos lens dpp dps grp) = length lens"
  by (simp_all add: selected_def)

lemma count_inv_selected:
  assumes ne: "lens \<noteq> []" and small: "\<forall>l\<in>set lens. l < 2 ^ 32"
    and len: "length pos = sum_list lens"
  shows "count_inv (selected c pos lens dpp dps grp)"
proof -
  let ?r = "selected c pos lens dpp dps grp"
  have lo: "last (zoff ?r) = sum_list (butlast lens)"
    unfolding selected_core cumsum_def last_cumsum_from by simp
  have p: "nb_points ?r = sum_list (butlast lens) + last lens"
    using sum_list_butlast [OF ne] len by (simp add: selected_core)
  have l: "last lens < 2 ^ 32" using ne small by simp
  have n: "length (zoff ?r) = length lens"
    using ne by (simp add: selected_core length_cumsum)
  have n': "length (zoff ?r) = nb_streamlines ?r" using n by (simp add: selected_core)
  have p': "length (zpos ?r) = nb_points ?r" by (simp add: selected_core)
  show ?thesis
  proof (cases "length lens > 1")
    case True
    have "to_uint32 (int (nb_points ?r) - int (last (zoff ?r))) = to_uint32 (int (last lens))"
      by (rule arg_cong [where f = to_uint32]) (simp add: p lo)
    with l have "to_uint32 (int (nb_points ?r) - int (last (zoff ?r))) = last lens"
      by (simp add: to_uint32_small)
    with p lo have "nb_points ?r = last (zoff ?r) + to_uint32 (int (nb_points ?r) - int (last (zoff ?r)))"
      by linarith
    with True n n' p' show ?thesis
      unfolding count_inv_iff by (simp only: if_True simp_thms)
  next
    case False
    with ne have one: "length lens = 1" by (cases lens) auto
    then have bl: "butlast lens = []" by (cases lens) auto
    have pl: "nb_points ?r = last lens" using p bl by simp
    have "to_uint32 (int (nb_points ?r)) = last lens"
      unfolding pl using l by (rule to_uint32_small)
    moreover have "last (zoff ?r) = 0" using lo bl by simp
    ultimately have "nb_points ?r = last (zoff ?r) + to_uint32 (int (nb_points ?r))"
      using pl by linarith
    moreover have "\<not> length (zoff ?r) > 1" "length (zoff ?r) = 1" using n one by simp_all
    ultimately show ?thesis
      unfolding count_inv_iff using n' p' by (simp only: if_True if_False simp_thms)
  qed
qed

lemma compute_lengths_small: "\<forall>l\<in>set (compute_lengths offs p). l < 2 ^ 32"
  unfolding compute_lengths_def using to_uint32_lt by auto

lemma count_inv_select:
  assumes "select c idx0 kg = Inr r"
  shows "count_inv r"
proof (cases "idx0 = []")
  case True
  with assms have "r = prune_metadata (init_as c) False" by (simp add: select_empty)
  then show ?thesis by (simp add: count_inv_prune count_inv_iff init_as_def)
next
  case False
  from assms False obtain offs lens pos dpp dps grp where
    g: "take_rows (zoff c) (map to_uint32 idx0) = Inr offs"
       "take_rows (compute_lengths (zoff c) (nb_points c)) (map to_uint32 idx0) = Inr lens"
       "copy_chunks (zpos c) (zip offs lens) = Inr pos"
       "r = selected c pos lens dpp dps grp"
    by (rule select_Inr_nonempty)
  have ne: "lens \<noteq> []" using g(2) False by (auto simp: take_rows_Inr)
  have eq: "length offs = length lens" using g(1,2) by (auto simp: take_rows_Inr)
  have "set lens \<subseteq> set (compute_lengths (zoff c) (nb_points c))"
    using g(2) by (auto simp: take_rows_Inr list_all_iff)
  then have small: "\<forall>l\<in>set lens. l < 2 ^ 32" using compute_lengths_small by blast
  have "length pos = sum_list (map snd (zip offs lens))" by (rule copy_chunks_length [OF g(3)])
  then have "length pos = sum_list lens" using eq by simp
  from count_inv_selected [OF ne small this] g(4) show ?thesis by simp
qed

subsection \<open>append: what a failed precondition leaves behind\<close>

lemma kept_data_refl: "kept_data c c"
  by (simp add: kept_data_def)

lemma kept_data_prune: "kept_data c (prune_metadata c False)"
  by (simp add: kept_data_def prune_metadata_arrays prune_arrays_idem)

lemma append_tagged_other:
  "append ex_tagged ex_other False True = (Some KeySetMismatch, ex_tagged\<lparr>zgrp := []\<rparr>, ex_other)"
  by (simp add: ex_tagged_def ex_other_def blank_def eye4_def append_defs del: set_filter)

text \<open>
  Claim C3, as amended. When \<open>append\<close> fails with the schema mismatch, the immutable
  backend or the conflicting policy error, neither container is changed. When it fails
  with the key-set mismatch or the ambiguous policy error, \<open>is_empty\<close> has run its
  pruning pass: each container is either unchanged or pruned, so its attributes, counts,
  positions and offsets are unchanged and every per-point, per-streamline and group array
  with at least one row is unchanged; what may be gone are the zero-row arrays and the
  per-group entries of groups that are absent or have no member.
\<close>

theorem append_failed_precondition:
  assumes "append t s d k = (Some e, t', s')"
    and "e \<in> {SchemaMismatch, ImmutableBackendError, ConflictingPolicy, KeySetMismatch,
               AmbiguousGroupPolicy}"
  shows "(e \<in> {SchemaMismatch, ImmutableBackendError, ConflictingPolicy} \<longrightarrow> t' = t \<and> s' = s) \<and>
         (t' = t \<or> t' = prune_metadata t False) \<and>
         (s' = s \<or> s' = prune_metadata s False) \<and>
         kept_data t t' \<and> kept_data s s'"
  using assms(1)
proof (cases rule: append_cases)
  case (failed e')
  then have c: "append_checks t s d k = (Some e, t', s')" by simp
  note st = append_checks_states(1) [OF c]
  have "e \<in> {SchemaMismatch, ImmutableBackendError, ConflictingPolicy} \<Longrightarrow> t' = t \<and> s' = s"
    using append_checks_states(2) [OF c] by blast
  moreover have "kept_data t t'" using st kept_data_refl kept_data_prune by metis
  moreover have "kept_data s s'" using st kept_data_refl kept_data_prune by metis
  ultimately show ?thesis using st by blast
next
  case (grown t1 s1)
  from append_grow_error [OF grown(2)] assms(2) show ?thesis by auto
qed

theorem append_failed_precondition_witness:
  "append ex_tagged ex_other False True = (Some KeySetMismatch, ex_tagged\<lparr>zgrp := []\<rparr>, ex_other) \<and>
   ex_tagged\<lparr>zgrp := []\<rparr> = prune_metadata ex_tagged False \<and>
   kept_data ex_tagged (ex_tagged\<lparr>zgrp := []\<rparr>) \<and> kept_data ex_other ex_other"
proof -
  have e: "KeySetMismatch \<in> {SchemaMismatch, ImmutableBackendError, ConflictingPolicy,
             KeySetMismatch, AmbiguousGroupPolicy}" by simp
  note t = append_failed_precondition [OF append_tagged_other e]
  have p: "ex_tagged\<lparr>zgrp := []\<rparr> = prune_metadata ex_tagged False"
    by (simp add: ex_tagged_def blank_def prune_metadata_def prune_arrays_def)
  from t p show ?thesis using append_tagged_other by blast
qed

text \<open>
  The claim as stated fails: the target has a group \<open>g\<close> with no member, the per-point
  keys of target and source differ, \<open>append\<close> fails with the key-set mismatch, and the
  target has lost the key \<open>g\<close>.
\<close>

theorem append_failure_prunes_target:
  "append ex_tagged ex_other False True = (Some KeySetMismatch, ex_tagged\<lparr>zgrp := []\<rparr>, ex_other) \<and>
   map fst (zgrp ex_tagged) = [''g''] \<and> map fst (zgrp (ex_tagged\<lparr>zgrp := []\<rparr>)) = []"
  using append_tagged_other by (simp add: ex_tagged_def)

subsection \<open>The count invariant\<close>

lemma append_target_source:
  "append ex_target ex_source False True =
     (None,
      ex_target\<lparr>nb_points := 3, nb_streamlines := 2, zpos := [10, 11, 20], zoff := [0, 2],
                zgrp := [(''g'', [0, 2])]\<rparr>,
      ex_source)"
  by (simp add: example_defs append_defs)

lemma select_ex_a_reordered:
  "select ex_a [2, 0, 1] True =
     Inr (ex_a\<lparr>zpos := [30, 31, 10, 11, 20, 21, 22], zoff := [0, 2, 4],
                zdpp := [(''color'', [6, 7, 1, 2, 3, 4, 5])],
                zdps := [(''weight'', [300, 100, 200])], zgrp := [(''g1'', [1, 0])]\<rparr>)"
  by (simp add: example_defs select_defs upt_rec del: set_filter)

lemmas count_inv_eval = count_inv_def last_offset_def streamlines_def compute_lengths_def
  to_uint32_def

text \<open>
  Claim C8. \<open>append\<close> keeps the count invariant of the target (and of the source) when
  both containers satisfy it, whether it returns or raises; every container \<open>select\<close>
  returns satisfies it; \<open>prune_metadata\<close> keeps it. The invariant is: the offsets have
  \<open>nb_streamlines\<close> entries, the positions \<open>nb_points\<close> rows, and \<open>nb_points\<close> is the
  last offset plus the derived length of the last streamline.
\<close>

theorem count_invariant_preserved:
  "(count_inv t \<and> count_inv s \<and> append t s d k = (r, t', s') \<longrightarrow> count_inv t' \<and> count_inv s') \<and>
   (select c indices keep_group = Inr c' \<longrightarrow> count_inv c') \<and>
   (count_inv c \<longrightarrow> count_inv (prune_metadata c force))"
  using count_inv_append count_inv_select count_inv_prune by blast

theorem count_invariant_preserved_witness:
  "count_inv ex_target \<and> count_inv ex_source \<and>
   append ex_target ex_source False True =
     (None,
      ex_target\<lparr>nb_points := 3, nb_streamlines := 2, zpos := [10, 11, 20], zoff := [0, 2],
                zgrp := [(''g'', [0, 2])]\<rparr>,
      ex_source) \<and>
   count_inv (ex_target\<lparr>nb_points := 3, nb_streamlines := 2, zpos := [10, 11, 20],
                         zoff := [0, 2], zgrp := [(''g'', [0, 2])]\<rparr>) \<and>
   select ex_a [2, 0, 1] True =
     Inr (ex_a\<lparr>zpos := [30, 31, 10, 11, 20, 21, 22], zoff := [0, 2, 4],
                zdpp := [(''color'', [6, 7, 1, 2, 3, 4, 5])],
                zdps := [(''weight'', [300, 100, 200])], zgrp := [(''g1'', [1, 0])]\<rparr>) \<and>
   count_inv (ex_a\<lparr>zpos := [30, 31, 10, 11, 20, 21, 22], zoff := [0, 2, 4],
                   zdpp := [(''color'', [6, 7, 1, 2, 3, 4, 5])],
                   zdps := [(''weight'', [300, 100, 200])], zgrp := [(''g1'', [1, 0])]\<rparr>) \<and>
   count_inv ex_a \<and> count_inv (prune_metadata ex_a True)"
proof -
  have h1: "count_inv ex_target" by (simp add: example_defs count_inv_eval)
  have h2: "count_inv ex_source" by (simp add: example_defs count_inv_eval)
  have h3: "count_inv ex_a" by (simp add: example_defs count_inv_eval)
  note t = count_invariant_preserved [of ex_target ex_source False True None _ ex_source
             ex_a "[2, 0, 1]" True _ True]
  from t h1 h2 h3 append_target_source select_ex_a_reordered show ?thesis by blast
qed

end
